theory Spec2Isabelle
  imports Complex_Main "HOL-Library.Multiset"
begin

section \<open>Betters POS: the store, the sale commit and the receipt printer\<close>

text \<open>
  A shallow embedding of \<^verbatim>\<open>server.ts\<close> (the Express handlers over the SQLite store and
  the ESC/POS printer) and of the cart arithmetic of the React client.

  Conventions of the model:
  \<^item> JavaScript numbers that carry money (\<^verbatim>\<open>REAL\<close> columns, \<^verbatim>\<open>price\<close>, \<^verbatim>\<open>total\<close>) are
    values of a type variable \<open>'r\<close>; the model never computes with them except through
    the operations of an \<open>'r arith\<close> record (\<^verbatim>\<open>+\<close>, \<^verbatim>\<open>*\<close>, \<^verbatim>\<open>0\<close>, \<^verbatim>\<open>toFixed(2)\<close>), so no law of
    exact arithmetic is assumed of them.
  \<^item> \<^verbatim>\<open>INTEGER\<close> columns and quantities are \<open>int\<close> (the range in which JavaScript numbers
    and SQLite integers are exact).
  \<^item> A request body is read at the types the client declares: \<^verbatim>\<open>items\<close> is a list, and
    each field read from it is a number or missing. A JSON field that is \<^verbatim>\<open>null\<close> or
    absent is \<open>None\<close>; SQLite receives it as \<^verbatim>\<open>NULL\<close>.
  \<^item> A table is the list of its rows in rowid order, which is insertion order.
  \<^item> A timestamp (\<^verbatim>\<open>CURRENT_TIMESTAMP\<close>, a fixed-width text of one-second resolution) is
    the number of that second.
  \<^item> A string is a list of code units; \<^verbatim>\<open>length\<close> and \<^verbatim>\<open>substring\<close> count them.
\<close>

subsection \<open>Schema\<close>

record 'r product =
  p_id :: int
  p_name :: string
  p_price :: 'r
  p_stock :: int
  p_barcode :: "string option"

record 'r sale =
  s_id :: int
  s_total :: 'r
  s_date :: nat

record 'r sale_detail =
  sd_id :: int
  sd_sale_id :: int
  sd_product_id :: int
  sd_quantity :: int
  sd_price :: 'r

text \<open>
  The database file: the three tables, the \<^verbatim>\<open>sqlite_sequence\<close> counters that
  \<^verbatim>\<open>AUTOINCREMENT\<close> keeps for \<^verbatim>\<open>sales\<close> and \<^verbatim>\<open>sale_details\<close>, and whether the connection
  enforces the declared foreign keys (a setting of the SQLite build, not of this code:
  every result below holds for both values).
\<close>

record 'r database =
  products :: "'r product list"
  sales :: "'r sale list"
  sale_details :: "'r sale_detail list"
  seq_sales :: int
  seq_sale_details :: int
  foreign_keys :: bool

datatype sql_error = NotNull | ForeignKey

text \<open>\<^verbatim>\<open>AUTOINCREMENT\<close>: one more than the largest rowid the table has ever held.\<close>

definition next_rowid :: "int \<Rightarrow> int list \<Rightarrow> int" where
  "next_rowid seq ids = max seq (foldr max ids 0) + 1"

subsection \<open>The statements of \<^verbatim>\<open>POST /api/sales\<close>\<close>

text \<open>
  A statement returns its outcome and the database after it. A statement that fails
  changes nothing (SQLite undoes a failed statement by itself).
\<close>

text \<open>\<^verbatim>\<open>INSERT INTO sales (total) VALUES (?)\<close>; the result is \<^verbatim>\<open>info.lastInsertRowid\<close>.\<close>

definition insertSale :: "nat \<Rightarrow> 'r option \<Rightarrow> 'r database \<Rightarrow> (sql_error + int) \<times> 'r database" where
  "insertSale now total' db =
     (case total' of
        None \<Rightarrow> (Inl NotNull, db)
      | Some t \<Rightarrow>
          (let saleId = next_rowid (seq_sales db) (map s_id (sales db))
           in (Inr saleId,
               db\<lparr>sales := sales db @ [\<lparr>s_id = saleId, s_total = t, s_date = now\<rparr>],
                  seq_sales := saleId\<rparr>)))"

text \<open>\<^verbatim>\<open>INSERT INTO sale_details (sale_id, product_id, quantity, price) VALUES (?, ?, ?, ?)\<close>\<close>

definition insertDetail ::
  "int \<Rightarrow> int option \<Rightarrow> int option \<Rightarrow> 'r option \<Rightarrow> 'r database \<Rightarrow> (sql_error + unit) \<times> 'r database" where
  "insertDetail saleId item_id item_quantity item_price db =
     (case (item_id, item_quantity, item_price) of
        (Some pid, Some q, Some pr) \<Rightarrow>
          if foreign_keys db \<and>
             (saleId \<notin> set (map s_id (sales db)) \<or> pid \<notin> set (map p_id (products db)))
          then (Inl ForeignKey, db)
          else
            (let rid = next_rowid (seq_sale_details db) (map sd_id (sale_details db))
             in (Inr (),
                 db\<lparr>sale_details := sale_details db @
                      [\<lparr>sd_id = rid, sd_sale_id = saleId, sd_product_id = pid,
                        sd_quantity = q, sd_price = pr\<rparr>],
                    seq_sale_details := rid\<rparr>))
      | _ \<Rightarrow> (Inl NotNull, db))"

text \<open>
  \<^verbatim>\<open>UPDATE products SET stock = stock - ? WHERE id = ?\<close>. No row matches a \<^verbatim>\<open>NULL\<close> id;
  a \<^verbatim>\<open>NULL\<close> quantity makes the new stock \<^verbatim>\<open>NULL\<close>, which the column refuses.
\<close>

definition updateStock ::
  "int option \<Rightarrow> int option \<Rightarrow> 'r database \<Rightarrow> (sql_error + unit) \<times> 'r database" where
  "updateStock item_quantity item_id db =
     (case item_id of
        None \<Rightarrow> (Inr (), db)
      | Some pid \<Rightarrow>
          (case item_quantity of
             None \<Rightarrow>
               if pid \<in> set (map p_id (products db)) then (Inl NotNull, db) else (Inr (), db)
           | Some q \<Rightarrow>
               (Inr (),
                db\<lparr>products :=
                     map (\<lambda>p. if p_id p = pid then p\<lparr>p_stock := p_stock p - q\<rparr> else p)
                         (products db)\<rparr>)))"

subsection \<open>The request body and the transaction\<close>

text \<open>One element of \<^verbatim>\<open>items\<close> as the handler reads it: \<^verbatim>\<open>item.id\<close>, \<^verbatim>\<open>item.quantity\<close>, \<^verbatim>\<open>item.price\<close>.\<close>

record 'r sale_item =
  i_id :: "int option"
  i_quantity :: "int option"
  i_price :: "'r option"

text \<open>
  The \<^verbatim>\<open>for (const item of saleItems)\<close> loop. An exception leaves the loop at once; the
  database returned with it is the one the loop had reached.
\<close>

fun sale_items :: "int \<Rightarrow> 'r sale_item list \<Rightarrow> 'r database \<Rightarrow> (sql_error + unit) \<times> 'r database" where
  "sale_items saleId [] db = (Inr (), db)"
| "sale_items saleId (item # rest) db =
     (case insertDetail saleId (i_id item) (i_quantity item) (i_price item) db of
        (Inl e, db1) \<Rightarrow> (Inl e, db1)
      | (Inr _, db1) \<Rightarrow>
          (case updateStock (i_quantity item) (i_id item) db1 of
             (Inl e, db2) \<Rightarrow> (Inl e, db2)
           | (Inr _, db2) \<Rightarrow> sale_items saleId rest db2))"

text \<open>The function given to \<^verbatim>\<open>db.transaction\<close>.\<close>

definition sale_body ::
  "nat \<Rightarrow> 'r option \<Rightarrow> 'r sale_item list \<Rightarrow> 'r database \<Rightarrow> (sql_error + int) \<times> 'r database" where
  "sale_body now saleTotal saleItems db =
     (case insertSale now saleTotal db of
        (Inl e, db1) \<Rightarrow> (Inl e, db1)
      | (Inr saleId, db1) \<Rightarrow>
          (case sale_items saleId saleItems db1 of
             (Inl e, db2) \<Rightarrow> (Inl e, db2)
           | (Inr _, db2) \<Rightarrow> (Inr saleId, db2)))"

text \<open>
  \<^verbatim>\<open>db.transaction(fn)\<close> of better-sqlite3: \<^verbatim>\<open>BEGIN\<close>, run \<^verbatim>\<open>fn\<close>, \<^verbatim>\<open>COMMIT\<close>; when \<^verbatim>\<open>fn\<close>
  throws, \<^verbatim>\<open>ROLLBACK\<close> to the database as it was at \<^verbatim>\<open>BEGIN\<close> and throw again.
\<close>

definition transaction ::
  "('db \<Rightarrow> ('e + 'a) \<times> 'db) \<Rightarrow> 'db \<Rightarrow> ('e + 'a) \<times> 'db" where
  "transaction fn db =
     (case fn db of
        (Inl e, _) \<Rightarrow> (Inl e, db)
      | (Inr a, db') \<Rightarrow> (Inr a, db'))"

subsection \<open>Responses and the store handlers\<close>

record 'r sale_summary =
  ss_id :: int
  ss_total :: 'r
  ss_date :: nat
  ss_itemCount :: nat

record 'r line =
  l_name :: string
  l_quantity :: int
  l_price :: 'r

datatype 'r payload =
    ProductList "'r product list"
  | SaleId int
  | SaleList "'r sale_summary list"
  | SaleDetail "'r sale" "'r line list"
  | Message string

text \<open>\<open>Ok\<close> is a status 200 body, \<open>NotFound\<close> a 404 and \<open>ServerError\<close> a 500 with its error text.\<close>

datatype 'r response = Ok "'r payload" | NotFound string | ServerError string

text \<open>\<^verbatim>\<open>GET /api/products\<close>\<close>

definition list_products :: "'r database \<Rightarrow> 'r response" where
  "list_products db = Ok (ProductList (products db))"

text \<open>\<^verbatim>\<open>POST /api/sales\<close>: the transaction inside \<^verbatim>\<open>try\<close>/\<^verbatim>\<open>catch\<close>.\<close>

definition create_sale ::
  "nat \<Rightarrow> 'r option \<Rightarrow> 'r sale_item list \<Rightarrow> 'r database \<Rightarrow> 'r response \<times> 'r database" where
  "create_sale now total' items db =
     (case transaction (sale_body now total' items) db of
        (Inr saleId, db') \<Rightarrow> (Ok (SaleId saleId), db')
      | (Inl e, db') \<Rightarrow> (ServerError ''Failed to process sale'', db'))"

text \<open>
  \<^verbatim>\<open>GET /api/sales\<close>. The scan of \<^verbatim>\<open>sales\<close> with its left join yields one group per sale
  (\<^verbatim>\<open>s.id\<close> is the primary key), in the order of the scan, with \<^verbatim>\<open>COUNT(sd.id)\<close> the
  number of the sale's detail rows.
\<close>

definition sale_group :: "'r database \<Rightarrow> 'r sale \<Rightarrow> 'r sale_summary" where
  "sale_group db s =
     \<lparr>ss_id = s_id s, ss_total = s_total s, ss_date = s_date s,
      ss_itemCount = length (filter (\<lambda>sd. sd_sale_id sd = s_id s) (sale_details db))\<rparr>"

definition sale_groups :: "'r database \<Rightarrow> 'r sale_summary list" where
  "sale_groups db = map (sale_group db) (sales db)"

text \<open>
  \<^verbatim>\<open>ORDER BY s.date DESC\<close>, the only sort key of the query. SQLite's sorter puts the groups
  in descending order of the key and leaves groups of equal key in the order in which
  they reached it, the order of the scan. On lists that function is the stable sort by
  the negated date.
\<close>

definition order_by_date_desc :: "'r sale_summary list \<Rightarrow> 'r sale_summary list" where
  "order_by_date_desc rows = sort_key (\<lambda>r. - int (ss_date r)) rows"

definition list_sales :: "'r database \<Rightarrow> 'r response" where
  "list_sales db = Ok (SaleList (order_by_date_desc (sale_groups db)))"

text \<open>
  \<^verbatim>\<open>GET /api/sales/:id\<close>. \<open>saleId\<close> is the integer that the route parameter denotes.
  The items are the inner join of the sale's detail rows with \<^verbatim>\<open>products\<close>, in the order
  of the detail rows.
\<close>

definition sale_lines :: "int \<Rightarrow> 'r database \<Rightarrow> 'r line list" where
  "sale_lines saleId db =
     concat (map (\<lambda>sd. map (\<lambda>p. \<lparr>l_name = p_name p, l_quantity = sd_quantity sd,
                                  l_price = sd_price sd\<rparr>)
                            (filter (\<lambda>p. sd_product_id sd = p_id p) (products db)))
                 (filter (\<lambda>sd. sd_sale_id sd = saleId) (sale_details db)))"

definition get_sale :: "int \<Rightarrow> 'r database \<Rightarrow> 'r response" where
  "get_sale saleId db =
     (case find (\<lambda>s. s_id s = saleId) (sales db) of
        None \<Rightarrow> NotFound ''Sale not found''
      | Some sale \<Rightarrow> Ok (SaleDetail sale (sale_lines saleId db)))"

subsection \<open>The receipt printer\<close>

record column =
  c_text :: string
  c_align :: string
  c_width :: rat

datatype directive =
    Font string
  | Align string
  | Style string
  | Size nat nat
  | Text string
  | TableCustom "column list"
  | Feed nat
  | Cut
  | Close
  | Cashdraw nat

text \<open>The operations on JavaScript numbers that the client and the receipt use.\<close>

record 'r arith =
  num_zero :: 'r
  num_plus :: "'r \<Rightarrow> 'r \<Rightarrow> 'r"
  num_times :: "'r \<Rightarrow> int \<Rightarrow> 'r"
  toFixed2 :: "'r \<Rightarrow> string"

text \<open>\<^verbatim>\<open>toString()\<close> of an integer: its decimal digits, with a sign when negative.\<close>

fun digits :: "nat \<Rightarrow> string" where
  "digits n =
     (if n < 10 then [''0123456789'' ! n]
      else digits (n div 10) @ [''0123456789'' ! (n mod 10)])"

declare digits.simps [simp del]

definition toString :: "int \<Rightarrow> string" where
  "toString i = (if i < 0 then CHR ''-'' # digits (nat (- i)) else digits (nat i))"

text \<open>\<^verbatim>\<open>s.padStart(n, c)\<close> for a one-character pad \<^verbatim>\<open>c\<close>.\<close>

definition padStart :: "nat \<Rightarrow> char \<Rightarrow> string \<Rightarrow> string" where
  "padStart n c s = replicate (n - length s) c @ s"

text \<open>\<^verbatim>\<open>s.substring(0, n)\<close>\<close>

definition substring0 :: "nat \<Rightarrow> string \<Rightarrow> string" where
  "substring0 n s = take n s"

definition rule_line :: string where
  "rule_line = ''--------------------------------''"

text \<open>The row that \<^verbatim>\<open>items.forEach\<close> prints for one item.\<close>

definition item_row :: "'r arith \<Rightarrow> 'r line \<Rightarrow> directive" where
  "item_row A item =
     TableCustom
       [\<lparr>c_text = toString (l_quantity item), c_align = ''LEFT'', c_width = 0.15\<rparr>,
        \<lparr>c_text = substring0 15 (l_name item), c_align = ''LEFT'', c_width = 0.55\<rparr>,
        \<lparr>c_text = CHR ''$'' # toFixed2 A (num_times A (l_price item) (l_quantity item)),
         c_align = ''RIGHT'', c_width = 0.30\<rparr>]"

text \<open>
  The calls on \<^verbatim>\<open>printer\<close> in the success branch of \<^verbatim>\<open>POST /api/print\<close>, in order.
  \<open>locale_time\<close> is \<^verbatim>\<open>new Date().toLocaleString()\<close>.
\<close>

definition receipt_head :: "string \<Rightarrow> int \<Rightarrow> directive list" where
  "receipt_head locale_time saleId =
     [Font ''a'', Align ''ct'', Style ''b'', Size 2 2,
      Text ''BETTERS FABRICA'', Text ''DE TECNOLOGIA S.A.'',
      Size 1 1, Style ''normal'',
      Text ''RUC: 20123456789'',
      Text (''Av. Tecnol'' @ [CHR 0xF3] @ ''gica 123, Lima''),
      Text rule_line,
      Align ''lt'',
      Text (''Ticket: #'' @ padStart 6 CHR ''0'' (toString saleId)),
      Text (''Fecha: '' @ locale_time),
      Text rule_line,
      TableCustom
        [\<lparr>c_text = ''Cant'', c_align = ''LEFT'', c_width = 0.15\<rparr>,
         \<lparr>c_text = ''Producto'', c_align = ''LEFT'', c_width = 0.55\<rparr>,
         \<lparr>c_text = ''Total'', c_align = ''RIGHT'', c_width = 0.30\<rparr>]]"

definition receipt_tail :: "'r arith \<Rightarrow> 'r \<Rightarrow> directive list" where
  "receipt_tail A total' =
     [Text rule_line, Align ''rt'', Size 1 1, Style ''b'',
      Text (''TOTAL: $'' @ toFixed2 A total'),
      Style ''normal'', Align ''ct'',
      Text rule_line,
      Text (CHR 0xA1 # ''Gracias por su compra!''),
      Text ''Vuelva pronto'',
      Feed 3, Cut, Close]"

definition receipt :: "'r arith \<Rightarrow> string \<Rightarrow> int \<Rightarrow> 'r \<Rightarrow> 'r line list \<Rightarrow> directive list" where
  "receipt A locale_time saleId total' items =
     receipt_head locale_time saleId @ map (item_row A) items @ receipt_tail A total'"

subsection \<open>The server\<close>

text \<open>
  What a request meets besides its own body: the clock and whether \<^verbatim>\<open>device.open\<close>
  reports an error.
\<close>

record env =
  e_now :: nat
  e_locale_time :: string
  e_open_error :: bool

text \<open>The store and everything sent to the printer so far.\<close>

record 'r world =
  store :: "'r database"
  printed :: "directive list"

text \<open>\<^verbatim>\<open>POST /api/print\<close>\<close>

definition print_receipt ::
  "'r arith \<Rightarrow> env \<Rightarrow> int \<Rightarrow> 'r \<Rightarrow> 'r line list \<Rightarrow> 'r world \<Rightarrow> 'r response \<times> 'r world" where
  "print_receipt A E saleId total' items w =
     (if e_open_error E then (ServerError ''Printer connection failed'', w)
      else (Ok (Message ''Printed successfully''),
            w\<lparr>printed := printed w @ receipt A (e_locale_time E) saleId total' items\<rparr>))"

text \<open>\<^verbatim>\<open>POST /api/drawer\<close>\<close>

definition open_drawer :: "env \<Rightarrow> 'r world \<Rightarrow> 'r response \<times> 'r world" where
  "open_drawer E w =
     (if e_open_error E then (ServerError ''Printer connection failed'', w)
      else (Ok (Message ''Drawer opened''), w\<lparr>printed := printed w @ [Cashdraw 2, Close]\<rparr>))"

datatype 'r request =
    GetProducts
  | PostSales "'r option" "'r sale_item list"
  | GetSales
  | GetSale int
  | PostPrint int 'r "'r line list"
  | PostDrawer

fun handle :: "'r arith \<Rightarrow> env \<Rightarrow> 'r request \<Rightarrow> 'r world \<Rightarrow> 'r response \<times> 'r world" where
  "handle A E GetProducts w = (list_products (store w), w)"
| "handle A E (PostSales total' items) w =
     (case create_sale (e_now E) total' items (store w) of
        (res, db') \<Rightarrow> (res, w\<lparr>store := db'\<rparr>))"
| "handle A E GetSales w = (list_sales (store w), w)"
| "handle A E (GetSale saleId) w = (get_sale saleId (store w), w)"
| "handle A E (PostPrint saleId total' items) w = print_receipt A E saleId total' items w"
| "handle A E PostDrawer w = open_drawer E w"

subsection \<open>The client's cart\<close>

text \<open>\<^verbatim>\<open>interface CartItem extends Product { quantity: number }\<close>\<close>

record 'r cart_item = "'r product" +
  quantity :: int

text \<open>\<^verbatim>\<open>cart.reduce((sum, item) => sum + (item.price * item.quantity), 0)\<close>\<close>

definition cart_total :: "'r arith \<Rightarrow> 'r cart_item list \<Rightarrow> 'r" where
  "cart_total A cart = foldl (\<lambda>sum item. num_plus A sum (num_times A (p_price item) (quantity item))) (num_zero A) cart"

text \<open>What the server reads of a cart item sent as JSON in \<^verbatim>\<open>items: cart\<close>.\<close>

definition wire :: "'r cart_item \<Rightarrow> 'r sale_item" where
  "wire item = \<lparr>i_id = Some (p_id item), i_quantity = Some (quantity item), i_price = Some (p_price item)\<rparr>"

subsection \<open>Vocabulary of the properties\<close>

text \<open>
  \<open>news\<close> are detail rows of sale \<open>saleId\<close>, one per item and in the items' order,
  each holding its item's product id, quantity and price (so no field of an item is null).
\<close>

definition rows_record :: "'r sale_detail list \<Rightarrow> int \<Rightarrow> 'r sale_item list \<Rightarrow> bool" where
  "rows_record news saleId items =
     (map (\<lambda>sd. (sd_sale_id sd, Some (sd_product_id sd), Some (sd_quantity sd), Some (sd_price sd))) news
      = map (\<lambda>item. (saleId, i_id item, i_quantity item, i_price item)) items)"

text \<open>The stock decrement of one item, on the rows of \<^verbatim>\<open>products\<close>.\<close>

definition decrement :: "'r product list \<Rightarrow> 'r sale_item \<Rightarrow> 'r product list" where
  "decrement ps item =
     (case (i_id item, i_quantity item) of
        (Some pid, Some q) \<Rightarrow> map (\<lambda>p. if p_id p = pid then p\<lparr>p_stock := p_stock p - q\<rparr> else p) ps
      | _ \<Rightarrow> ps)"

text \<open>The quantity of product \<open>pid\<close> that a request asks for, over all its occurrences.\<close>

definition ordered :: "'r sale_item list \<Rightarrow> int \<Rightarrow> int" where
  "ordered items pid =
     sum_list (map (\<lambda>item. case i_quantity item of Some q \<Rightarrow> q | None \<Rightarrow> 0)
                   (filter (\<lambda>item. i_id item = Some pid) items))"

text \<open>
  What the schema declares and every sale commit keeps: \<^verbatim>\<open>products.id\<close> and \<^verbatim>\<open>sales.id\<close> are
  primary keys, and \<^verbatim>\<open>sale_details.sale_id\<close> references a stored sale.
\<close>

definition integrity :: "'r database \<Rightarrow> bool" where
  "integrity db =
     (distinct (map p_id (products db)) \<and> distinct (map s_id (sales db)) \<and>
      list_all (\<lambda>sd. sd_sale_id sd \<in> set (map s_id (sales db))) (sale_details db))"

text \<open>The sum of price \<^verbatim>\<open>*\<close> quantity over returned line items, added in the order of the list.\<close>

definition lines_total :: "'r arith \<Rightarrow> 'r line list \<Rightarrow> 'r" where
  "lines_total A ls = foldl (\<lambda>sum l. num_plus A sum (num_times A (l_price l) (l_quantity l))) (num_zero A) ls"

text \<open>
  The rows of \<^verbatim>\<open>sales\<close> in ascending rowid order: with \<^verbatim>\<open>AUTOINCREMENT\<close> a later insert
  has a larger id, so the order of the ids is the order of insertion.
\<close>

definition rowid_order :: "'r database \<Rightarrow> bool" where
  "rowid_order db = sorted_wrt (<) (map s_id (sales db))"

subsection \<open>Example data\<close>

text \<open>
  A catalogue of two of the seeded products (the accent of the second name left out),
  with no sale yet.
\<close>

definition shop :: "real database" where
  "shop = \<lparr>products =
             [\<lparr>p_id = 5, p_name = ''Terminal POS All-in-One'', p_price = 550, p_stock = 15,
               p_barcode = Some ''8412345678905''\<rparr>,
              \<lparr>p_id = 6, p_name = ''Rollo Papel Termico 80mm'', p_price = 2.5, p_stock = 500,
               p_barcode = Some ''8412345678906''\<rparr>],
           sales = [], sale_details = [], seq_sales = 0, seq_sale_details = 0,
           foreign_keys = True\<rparr>"

text \<open>A request for the second product twice: two rolls, then one more.\<close>

definition two_rolls :: "real sale_item list" where
  "two_rolls = [\<lparr>i_id = Some 6, i_quantity = Some 2, i_price = Some 2.5\<rparr>,
                \<lparr>i_id = Some 6, i_quantity = Some 1, i_price = Some 2.5\<rparr>]"

text \<open>A cart that asks for twenty terminals when fifteen are in stock.\<close>

definition greedy_cart :: "real cart_item list" where
  "greedy_cart = [\<lparr>p_id = 5, p_name = ''Terminal POS All-in-One'', p_price = 550, p_stock = 15,
                   p_barcode = Some ''8412345678905'', quantity = 20\<rparr>]"

text \<open>
  Exact arithmetic for the examples: \<open>fixed2\<close> rounds a non-negative amount to
  hundredths and writes it with two decimals.
\<close>

definition fixed2 :: "real \<Rightarrow> string" where
  "fixed2 x =
     (let n = \<lfloor>x * 100 + 1 / 2\<rfloor>
      in toString (n div 100) @ ''.'' @ padStart 2 CHR ''0'' (toString (n mod 100)))"

definition exact :: "real arith" where
  "exact = \<lparr>num_zero = 0, num_plus = (+), num_times = (\<lambda>x n. x * of_int n), toFixed2 = fixed2\<rparr>"

text \<open>Two terminals and three rolls; the cart's own total is 1107.50.\<close>

definition mixed_cart :: "real cart_item list" where
  "mixed_cart =
     [\<lparr>p_id = 5, p_name = ''Terminal POS All-in-One'', p_price = 550, p_stock = 15,
       p_barcode = Some ''8412345678905'', quantity = 2\<rparr>,
      \<lparr>p_id = 6, p_name = ''Rollo Papel Termico 80mm'', p_price = 2.5, p_stock = 500,
       p_barcode = Some ''8412345678906'', quantity = 3\<rparr>]"

definition shop_after_mixed :: "real database" where
  "shop_after_mixed =
     shop\<lparr>products := [(products shop ! 0)\<lparr>p_stock := 13\<rparr>, (products shop ! 1)\<lparr>p_stock := 497\<rparr>],
          sales := [\<lparr>s_id = 1, s_total = 1107.5, s_date = 100\<rparr>],
          sale_details :=
            [\<lparr>sd_id = 1, sd_sale_id = 1, sd_product_id = 5, sd_quantity = 2, sd_price = 550\<rparr>,
             \<lparr>sd_id = 2, sd_sale_id = 1, sd_product_id = 6, sd_quantity = 3, sd_price = 2.5\<rparr>],
          seq_sales := 1, seq_sale_details := 2\<rparr>"

text \<open>
  The same catalogue on a connection that does not enforce foreign keys, after a sale of
  three rolls and of one unit of a product 9 that the catalogue does not hold.
\<close>

definition ledger :: "real database" where
  "ledger =
     shop\<lparr>products := [products shop ! 0, (products shop ! 1)\<lparr>p_stock := 497\<rparr>],
          sales := [\<lparr>s_id = 1, s_total = 10, s_date = 100\<rparr>],
          sale_details :=
            [\<lparr>sd_id = 1, sd_sale_id = 1, sd_product_id = 6, sd_quantity = 3, sd_price = 2.5\<rparr>,
             \<lparr>sd_id = 2, sd_sale_id = 1, sd_product_id = 9, sd_quantity = 1, sd_price = 2.5\<rparr>],
          seq_sales := 1, seq_sale_details := 2, foreign_keys := False\<rparr>"

text \<open>Three sales without items: two in second 100, then one in second 200.\<close>

definition busy_second :: "real database" where
  "busy_second =
     shop\<lparr>sales := [\<lparr>s_id = 1, s_total = 10, s_date = 100\<rparr>,
                     \<lparr>s_id = 2, s_total = 20, s_date = 100\<rparr>,
                     \<lparr>s_id = 3, s_total = 30, s_date = 200\<rparr>],
          seq_sales := 3\<rparr>"

text \<open>A till whose printer answers, and the same till with the printer unreachable.\<close>

definition till :: env where
  "till = \<lparr>e_now = 100, e_locale_time = ''3/11/2026, 10:00:00'', e_open_error = False\<rparr>"

definition till_offline :: env where
  "till_offline = till\<lparr>e_open_error := True\<rparr>"

definition at_opening :: "real world" where
  "at_opening = \<lparr>store = shop, printed = []\<rparr>"

definition mixed_lines :: "real line list" where
  "mixed_lines =
     [\<lparr>l_name = ''Terminal POS All-in-One'', l_quantity = 2, l_price = 550\<rparr>,
      \<lparr>l_name = ''Rollo Papel Termico 80mm'', l_quantity = 3, l_price = 2.5\<rparr>]"

section \<open>Properties\<close>

subsection \<open>Row identifiers and single statements\<close>

lemma foldr_max_ge: "x \<in> set ids \<Longrightarrow> x \<le> foldr max ids (0::int)"
  by (induction ids) auto

lemma next_rowid_gt: "x \<in> set ids \<Longrightarrow> x < next_rowid seq ids"
  using foldr_max_ge [of x ids] by (simp add: next_rowid_def)

lemma next_rowid_fresh: "next_rowid seq ids \<notin> set ids"
  using next_rowid_gt [of "next_rowid seq ids" ids seq] by auto

lemma insertSale_Inr:
  "insertSale now total' db = (Inr saleId, db') \<Longrightarrow>
     \<exists>t. total' = Some t \<and> saleId = next_rowid (seq_sales db) (map s_id (sales db)) \<and>
         db' = db\<lparr>sales := sales db @ [\<lparr>s_id = saleId, s_total = t, s_date = now\<rparr>], seq_sales := saleId\<rparr>"
  by (auto simp: insertSale_def Let_def split: option.splits)

lemma insertSale_Inl: "insertSale now total' db = (Inl e, db') \<Longrightarrow> db' = db"
  by (auto simp: insertSale_def Let_def split: option.splits)

lemma insertDetail_Inr:
  "insertDetail saleId a b c db = (Inr u, db') \<Longrightarrow>
     \<exists>pid q pr. a = Some pid \<and> b = Some q \<and> c = Some pr \<and>
       (foreign_keys db \<longrightarrow> saleId \<in> set (map s_id (sales db)) \<and> pid \<in> set (map p_id (products db))) \<and>
       db' = db\<lparr>sale_details := sale_details db @
                  [\<lparr>sd_id = next_rowid (seq_sale_details db) (map sd_id (sale_details db)),
                    sd_sale_id = saleId, sd_product_id = pid, sd_quantity = q, sd_price = pr\<rparr>],
               seq_sale_details := next_rowid (seq_sale_details db) (map sd_id (sale_details db))\<rparr>"
  by (auto simp: insertDetail_def Let_def split: option.splits if_splits)

lemma updateStock_Inr:
  "updateStock (i_quantity item) (i_id item) db = (Inr u, db') \<Longrightarrow>
     i_id item = Some pid \<Longrightarrow> i_quantity item = Some q \<Longrightarrow>
     db' = db\<lparr>products := decrement (products db) item\<rparr>"
  by (auto simp: updateStock_def decrement_def split: option.splits if_splits)

lemma sale_items_Inr:
  "sale_items saleId items db = (Inr u, db') \<Longrightarrow>
     \<exists>news. rows_record news saleId items \<and>
       db' = db\<lparr>products := foldl decrement (products db) items,
               sale_details := sale_details db @ news,
               seq_sale_details := seq_sale_details db'\<rparr>"
proof (induction items arbitrary: db)
  case Nil
  then show ?case by (simp add: rows_record_def)
next
  case (Cons item rest)
  from Cons.prems obtain db1 u1 where i: "insertDetail saleId (i_id item) (i_quantity item) (i_price item) db = (Inr u1, db1)"
    by (auto split: prod.splits sum.splits)
  with Cons.prems obtain db2 u2 where s: "updateStock (i_quantity item) (i_id item) db1 = (Inr u2, db2)"
    and r: "sale_items saleId rest db2 = (Inr u, db')"
    by (auto split: prod.splits sum.splits)
  from insertDetail_Inr [OF i] obtain pid q pr where
    f: "i_id item = Some pid" "i_quantity item = Some q" "i_price item = Some pr"
    and d1: "db1 = db\<lparr>sale_details := sale_details db @
                  [\<lparr>sd_id = next_rowid (seq_sale_details db) (map sd_id (sale_details db)),
                    sd_sale_id = saleId, sd_product_id = pid, sd_quantity = q, sd_price = pr\<rparr>],
               seq_sale_details := next_rowid (seq_sale_details db) (map sd_id (sale_details db))\<rparr>"
    by blast
  from updateStock_Inr [OF s f(1) f(2)] have d2: "db2 = db1\<lparr>products := decrement (products db1) item\<rparr>" .
  from Cons.IH [OF r] obtain news where n: "rows_record news saleId rest"
     and d': "db' = db2\<lparr>products := foldl decrement (products db2) rest,
               sale_details := sale_details db2 @ news,
               seq_sale_details := seq_sale_details db'\<rparr>" by blast
  let ?row = "\<lparr>sd_id = next_rowid (seq_sale_details db) (map sd_id (sale_details db)),
                    sd_sale_id = saleId, sd_product_id = pid, sd_quantity = q, sd_price = pr\<rparr>"
  have "rows_record (?row # news) saleId (item # rest)"
    using n f by (simp add: rows_record_def)
  moreover have "db' = db\<lparr>products := foldl decrement (products db) (item # rest),
               sale_details := sale_details db @ (?row # news),
               seq_sale_details := seq_sale_details db'\<rparr>"
    by (subst d') (simp add: d2 d1)
  ultimately show ?case by blast
qed


lemma create_sale_cases:
  "(\<exists>saleId t news db'.
       create_sale now total' items db = (Ok (SaleId saleId), db') \<and>
       total' = Some t \<and>
       saleId = next_rowid (seq_sales db) (map s_id (sales db)) \<and>
       sales db' = sales db @ [\<lparr>s_id = saleId, s_total = t, s_date = now\<rparr>] \<and>
       sale_details db' = sale_details db @ news \<and> rows_record news saleId items \<and>
       products db' = foldl decrement (products db) items \<and>
       foreign_keys db' = foreign_keys db)
   \<or> create_sale now total' items db = (ServerError ''Failed to process sale'', db)"
proof (cases "sale_body now total' items db")
  case (Pair r dbr)
  show ?thesis
  proof (cases r)
    case (Inl e)
    with Pair show ?thesis by (simp add: create_sale_def transaction_def)
  next
    case (Inr saleId)
    with Pair obtain db1 u where a: "insertSale now total' db = (Inr saleId, db1)"
      and b: "sale_items saleId items db1 = (Inr u, dbr)"
      by (auto simp: sale_body_def split: prod.splits sum.splits)
    from insertSale_Inr [OF a] obtain t where t: "total' = Some t"
      "saleId = next_rowid (seq_sales db) (map s_id (sales db))"
      "db1 = db\<lparr>sales := sales db @ [\<lparr>s_id = saleId, s_total = t, s_date = now\<rparr>], seq_sales := saleId\<rparr>"
      by blast
    from sale_items_Inr [OF b] obtain news where n: "rows_record news saleId items"
      "dbr = db1\<lparr>products := foldl decrement (products db1) items,
               sale_details := sale_details db1 @ news,
               seq_sale_details := seq_sale_details dbr\<rparr>" by blast
    have "create_sale now total' items db = (Ok (SaleId saleId), dbr)"
      using Pair Inr by (simp add: create_sale_def transaction_def)
    moreover have "sales dbr = sales db @ [\<lparr>s_id = saleId, s_total = t, s_date = now\<rparr>]"
      by (subst n(2)) (simp add: t(3))
    moreover have "sale_details dbr = sale_details db @ news"
      by (subst n(2)) (simp add: t(3))
    moreover have "products dbr = foldl decrement (products db) items"
      by (subst n(2)) (simp add: t(3))
    moreover have "foreign_keys dbr = foreign_keys db"
      by (subst n(2)) (simp add: t(3))
    ultimately show ?thesis using t(1,2) n(1) by blast
  qed
qed

lemma foldl_decrement:
  "foldl decrement ps items = map (\<lambda>p. p\<lparr>p_stock := p_stock p - ordered items (p_id p)\<rparr>) ps"
proof (induction items arbitrary: ps)
  case Nil
  show ?case by (simp add: ordered_def)
next
  case (Cons item rest)
  show ?case
    by (simp add: Cons.IH) (auto simp: decrement_def ordered_def split: option.splits)
qed

text \<open>The keys of the store are kept by every create-sale, whether it succeeds or fails.\<close>

lemma rows_record_sale_id: "rows_record news saleId items \<Longrightarrow> sd \<in> set news \<Longrightarrow> sd_sale_id sd = saleId"
proof -
  assume r: "rows_record news saleId items" and m: "sd \<in> set news"
  from r have "map sd_sale_id news = map (\<lambda>item. saleId) items"
  proof (induction news arbitrary: items)
    case Nil
    then show ?case by (simp add: rows_record_def)
  next
    case (Cons a news)
    then obtain i is' where "items = i # is'" by (cases items) (auto simp: rows_record_def)
    with Cons show ?case by (simp add: rows_record_def)
  qed
  moreover from m have "sd_sale_id sd \<in> set (map sd_sale_id news)" by simp
  ultimately show ?thesis by auto
qed

lemma create_sale_keeps_integrity:
  assumes "integrity db" and "create_sale now total' items db = (res, db')"
  shows "integrity db'"
proof -
  from create_sale_cases [of now total' items db] assms(2)
  consider (ok) saleId t news where
      "saleId = next_rowid (seq_sales db) (map s_id (sales db))"
      "sales db' = sales db @ [\<lparr>s_id = saleId, s_total = t, s_date = now\<rparr>]"
      "sale_details db' = sale_details db @ news" "rows_record news saleId items"
      "products db' = foldl decrement (products db) items"
    | (failed) "db' = db"
    by auto
  then show ?thesis
  proof cases
    case ok
    have "map p_id (products db') = map p_id (products db)"
      by (simp add: ok(5) foldl_decrement comp_def)
    moreover have "distinct (map s_id (sales db'))"
      using assms(1) next_rowid_fresh [of "seq_sales db" "map s_id (sales db)"]
      by (simp add: ok(1,2) integrity_def)
    moreover have "list_all (\<lambda>sd. sd_sale_id sd \<in> set (map s_id (sales db'))) (sale_details db')"
      using assms(1) rows_record_sale_id [OF ok(4)]
      by (auto simp: ok(2,3) integrity_def list_all_iff)
    ultimately show ?thesis using assms(1) by (simp add: integrity_def)
  next
    case failed
    with assms(1) show ?thesis by simp
  qed
qed

lemmas run_sale = create_sale_def transaction_def sale_body_def insertSale_def insertDetail_def
  updateStock_def next_rowid_def Let_def

subsection \<open>Atomicity of the sale commit\<close>

text \<open>
  Claim C1. Whatever the total and the items of a create-sale request, either the request
  succeeds and the store holds all of its effects (one new header row at the end of
  \<^verbatim>\<open>sales\<close>, one new detail row per item at the end of \<^verbatim>\<open>sale_details\<close>, the stock
  decrement of every item applied in turn to \<^verbatim>\<open>products\<close>), or it answers with the
  failure response and the database is the one before the request.
\<close>

theorem create_sale_atomic:
  "(\<exists>saleId t news db'.
       create_sale now total' items db = (Ok (SaleId saleId), db') \<and>
       total' = Some t \<and>
       sales db' = sales db @ [\<lparr>s_id = saleId, s_total = t, s_date = now\<rparr>] \<and>
       sale_details db' = sale_details db @ news \<and> rows_record news saleId items \<and>
       products db' = foldl decrement (products db) items)
   \<or> create_sale now total' items db = (ServerError ''Failed to process sale'', db)"
  using create_sale_cases [of now total' items db] by blast

text \<open>
  A request whose second item has no quantity: the body had already written the header,
  the first detail row and the first stock decrement when the second insert failed, and
  the transaction gives the database back untouched.
\<close>

theorem create_sale_atomic_witness:
  "create_sale 100 (Some 1107.5)
     [\<lparr>i_id = Some 6, i_quantity = Some 3, i_price = Some 2.5\<rparr>,
      \<lparr>i_id = Some 5, i_quantity = None, i_price = Some 550\<rparr>] shop
   = (ServerError ''Failed to process sale'', shop)
   \<and> products (snd (sale_body 100 (Some 1107.5)
     [\<lparr>i_id = Some 6, i_quantity = Some 3, i_price = Some 2.5\<rparr>,
      \<lparr>i_id = Some 5, i_quantity = None, i_price = Some 550\<rparr>] shop)) \<noteq> products shop"
  using create_sale_atomic [of 100 "Some 1107.5"
     "[\<lparr>i_id = Some 6, i_quantity = Some 3, i_price = Some 2.5\<rparr>,
      \<lparr>i_id = Some 5, i_quantity = None, i_price = Some 550\<rparr>]" shop]
  by (simp add: run_sale shop_def)

subsection \<open>Stock after a sale\<close>

lemma ordered_absent: "Some pid \<notin> set (map i_id items) \<Longrightarrow> ordered items pid = 0"
proof -
  assume "Some pid \<notin> set (map i_id items)"
  then have "filter (\<lambda>item. i_id item = Some pid) items = []"
    by (force simp: filter_empty_conv)
  then show ?thesis by (simp add: ordered_def)
qed

text \<open>
  Claim C3. After a successful create-sale the \<^verbatim>\<open>products\<close> table has the same rows in
  the same places; each row differs from the one before at most in its stock, which is
  the stock before minus the quantity the request asks of that product, summed over
  all items that name it; a row whose product no item names is the row before.
\<close>

theorem stock_after_sale:
  assumes "create_sale now total' items db = (Ok (SaleId saleId), db')"
  shows "length (products db') = length (products db) \<and>
         (\<forall>k < length (products db).
            products db' ! k =
              (products db ! k)\<lparr>p_stock := p_stock (products db ! k) - ordered items (p_id (products db ! k))\<rparr> \<and>
            (Some (p_id (products db ! k)) \<notin> set (map i_id items) \<longrightarrow> products db' ! k = products db ! k))"
proof -
  from create_sale_cases [of now total' items db] assms
  have "products db' = foldl decrement (products db) items" by auto
  then have m: "products db' = map (\<lambda>p. p\<lparr>p_stock := p_stock p - ordered items (p_id p)\<rparr>) (products db)"
    by (simp add: foldl_decrement)
  then have "length (products db') = length (products db)" by simp
  moreover have "\<forall>k < length (products db).
            products db' ! k =
              (products db ! k)\<lparr>p_stock := p_stock (products db ! k) - ordered items (p_id (products db ! k))\<rparr> \<and>
            (Some (p_id (products db ! k)) \<notin> set (map i_id items) \<longrightarrow> products db' ! k = products db ! k)"
    using m by (simp add: ordered_absent)
  ultimately show ?thesis by blast
qed

text \<open>Two rolls and one more roll: 500 becomes 497, the terminals stay as they were.\<close>

theorem stock_after_sale_witness:
  "create_sale 100 (Some 7.5) two_rolls shop =
     (Ok (SaleId 1),
      shop\<lparr>products := [products shop ! 0, (products shop ! 1)\<lparr>p_stock := 497\<rparr>],
           sales := [\<lparr>s_id = 1, s_total = 7.5, s_date = 100\<rparr>],
           sale_details :=
             [\<lparr>sd_id = 1, sd_sale_id = 1, sd_product_id = 6, sd_quantity = 2, sd_price = 2.5\<rparr>,
              \<lparr>sd_id = 2, sd_sale_id = 1, sd_product_id = 6, sd_quantity = 1, sd_price = 2.5\<rparr>],
           seq_sales := 1, seq_sale_details := 2\<rparr>)
   \<and> p_stock (products shop ! 1) = 500 \<and> ordered two_rolls 6 = 3 \<and> ordered two_rolls 5 = 0"
  using stock_after_sale [of 100 "Some 7.5" two_rolls shop 1
      "shop\<lparr>products := [products shop ! 0, (products shop ! 1)\<lparr>p_stock := 497\<rparr>],
           sales := [\<lparr>s_id = 1, s_total = 7.5, s_date = 100\<rparr>],
           sale_details :=
             [\<lparr>sd_id = 1, sd_sale_id = 1, sd_product_id = 6, sd_quantity = 2, sd_price = 2.5\<rparr>,
              \<lparr>sd_id = 2, sd_sale_id = 1, sd_product_id = 6, sd_quantity = 1, sd_price = 2.5\<rparr>],
           seq_sales := 1, seq_sale_details := 2\<rparr>"]
  by (simp add: run_sale shop_def two_rolls_def ordered_def)

subsection \<open>No validation of the total or of the stock\<close>

lemma decrement_ids: "map p_id (decrement ps item) = map p_id ps"
  by (auto simp: decrement_def split: option.splits)

lemma sale_items_succeeds:
  "list_all (\<lambda>item. i_id item \<noteq> None \<and> i_quantity item \<noteq> None \<and> i_price item \<noteq> None) items \<Longrightarrow>
   (foreign_keys db \<longrightarrow> saleId \<in> set (map s_id (sales db)) \<and>
      list_all (\<lambda>item. i_id item \<in> Some ` set (map p_id (products db))) items) \<Longrightarrow>
   \<exists>db'. sale_items saleId items db = (Inr (), db')"
proof (induction items arbitrary: db)
  case Nil
  show ?case by simp
next
  case (Cons item rest)
  from Cons.prems(1) obtain pid q pr where f: "i_id item = Some pid" "i_quantity item = Some q" "i_price item = Some pr"
    by auto
  let ?db1 = "db\<lparr>sale_details := sale_details db @
                  [\<lparr>sd_id = next_rowid (seq_sale_details db) (map sd_id (sale_details db)),
                    sd_sale_id = saleId, sd_product_id = pid, sd_quantity = q, sd_price = pr\<rparr>],
               seq_sale_details := next_rowid (seq_sale_details db) (map sd_id (sale_details db))\<rparr>"
  let ?db2 = "?db1\<lparr>products := decrement (products ?db1) item\<rparr>"
  have i: "insertDetail saleId (i_id item) (i_quantity item) (i_price item) db = (Inr (), ?db1)"
    using f Cons.prems(2) by (auto simp: insertDetail_def Let_def)
  have u: "updateStock (i_quantity item) (i_id item) ?db1 = (Inr (), ?db2)"
    using f by (simp add: updateStock_def decrement_def)
  have "\<exists>db'. sale_items saleId rest ?db2 = (Inr (), db')"
  proof (rule Cons.IH)
    show "list_all (\<lambda>item. i_id item \<noteq> None \<and> i_quantity item \<noteq> None \<and> i_price item \<noteq> None) rest"
      using Cons.prems(1) by simp
    show "foreign_keys ?db2 \<longrightarrow> saleId \<in> set (map s_id (sales ?db2)) \<and>
      list_all (\<lambda>item. i_id item \<in> Some ` set (map p_id (products ?db2))) rest"
      using Cons.prems(2) by (simp add: decrement_ids)
  qed
  then show ?case using i u by simp
qed


lemma wire_fields [simp]:
  "i_id (wire c) = Some (p_id c)" "i_quantity (wire c) = Some (quantity c)"
  "i_price (wire c) = Some (p_price c)"
  by (simp_all add: wire_def)

lemma create_sale_wire_succeeds:
  assumes "foreign_keys db \<longrightarrow> list_all (\<lambda>c. p_id c \<in> set (map p_id (products db))) cart"
  shows "\<exists>saleId db'. create_sale now (Some t) (map wire cart) db = (Ok (SaleId saleId), db')"
proof -
  let ?sid = "next_rowid (seq_sales db) (map s_id (sales db))"
  let ?db1 = "db\<lparr>sales := sales db @ [\<lparr>s_id = ?sid, s_total = t, s_date = now\<rparr>], seq_sales := ?sid\<rparr>"
  have a: "insertSale now (Some t) db = (Inr ?sid, ?db1)"
    by (simp add: insertSale_def Let_def)
  have "\<exists>db'. sale_items ?sid (map wire cart) ?db1 = (Inr (), db')"
  proof (rule sale_items_succeeds)
    show "list_all (\<lambda>item. i_id item \<noteq> None \<and> i_quantity item \<noteq> None \<and> i_price item \<noteq> None) (map wire cart)"
      by (simp add: list_all_iff)
    show "foreign_keys ?db1 \<longrightarrow> ?sid \<in> set (map s_id (sales ?db1)) \<and>
      list_all (\<lambda>item. i_id item \<in> Some ` set (map p_id (products ?db1))) (map wire cart)"
      using assms by (auto simp: list_all_iff)
  qed
  then obtain db' where "sale_items ?sid (map wire cart) ?db1 = (Inr (), db')" by blast
  with a have "create_sale now (Some t) (map wire cart) db = (Ok (SaleId ?sid), db')"
    by (simp add: create_sale_def transaction_def sale_body_def)
  then show ?thesis by blast
qed

lemma ordered_wire:
  "ordered (map wire cart) pid = sum_list (map quantity (filter (\<lambda>c. p_id c = pid) cart))"
  by (induction cart) (simp_all add: ordered_def)

lemma quantity_le_ordered:
  assumes "c \<in> set cart" and "\<forall>c'\<in>set cart. p_id c' = p_id c \<longrightarrow> 0 \<le> quantity c'"
  shows "quantity c \<le> ordered (map wire cart) (p_id c)"
proof -
  have "quantity c \<in> set (map quantity (filter (\<lambda>c'. p_id c' = p_id c) cart))"
    using assms(1) by auto
  moreover have "\<And>x. x \<in> set (map quantity (filter (\<lambda>c'. p_id c' = p_id c) cart)) \<Longrightarrow> 0 \<le> x"
    using assms(2) by auto
  ultimately show ?thesis
    unfolding ordered_wire by (rule member_le_sum_list)
qed

text \<open>
  Claim C5. A create-sale request with a total and a cart of well-typed items succeeds
  whatever the total and whatever the stock: nothing compares the total with the cart,
  nothing compares a quantity with the stock. (The one condition is the engine's, where
  it enforces foreign keys: the products named must exist.) The stock of every product
  is then the stock before minus the quantity asked, so when an item asks for more than
  the stock, and no item of that product has a negative quantity, the stock is negative
  after the commit.
\<close>

theorem create_sale_no_validation:
  assumes "foreign_keys db \<longrightarrow> list_all (\<lambda>c. p_id c \<in> set (map p_id (products db))) cart"
  shows "\<exists>saleId db'.
           create_sale now (Some t) (map wire cart) db = (Ok (SaleId saleId), db') \<and>
           length (products db') = length (products db) \<and>
           (\<forall>k < length (products db).
              p_stock (products db' ! k) =
                p_stock (products db ! k) - ordered (map wire cart) (p_id (products db ! k)) \<and>
              (\<forall>c \<in> set cart.
                 p_id c = p_id (products db ! k) \<and> p_stock (products db ! k) < quantity c \<and>
                 (\<forall>c' \<in> set cart. p_id c' = p_id c \<longrightarrow> 0 \<le> quantity c')
                 \<longrightarrow> p_stock (products db' ! k) < 0))"
proof -
  from create_sale_wire_succeeds [OF assms, of now t] obtain saleId db' where
    run: "create_sale now (Some t) (map wire cart) db = (Ok (SaleId saleId), db')" by blast
  with create_sale_cases [of now "Some t" "map wire cart" db]
  have "products db' = foldl decrement (products db) (map wire cart)" by auto
  then have m: "products db' =
      map (\<lambda>p. p\<lparr>p_stock := p_stock p - ordered (map wire cart) (p_id p)\<rparr>) (products db)"
    by (simp add: foldl_decrement)
  have len: "length (products db') = length (products db)" using m by simp
  have "\<forall>k < length (products db).
              p_stock (products db' ! k) =
                p_stock (products db ! k) - ordered (map wire cart) (p_id (products db ! k)) \<and>
              (\<forall>c \<in> set cart.
                 p_id c = p_id (products db ! k) \<and> p_stock (products db ! k) < quantity c \<and>
                 (\<forall>c' \<in> set cart. p_id c' = p_id c \<longrightarrow> 0 \<le> quantity c')
                 \<longrightarrow> p_stock (products db' ! k) < 0)"
  proof (intro allI impI conjI ballI)
    fix k assume k: "k < length (products db)"
    show s: "p_stock (products db' ! k) =
                p_stock (products db ! k) - ordered (map wire cart) (p_id (products db ! k))"
      using m k by simp
    fix c assume c: "c \<in> set cart"
      and h: "p_id c = p_id (products db ! k) \<and> p_stock (products db ! k) < quantity c \<and>
                 (\<forall>c' \<in> set cart. p_id c' = p_id c \<longrightarrow> 0 \<le> quantity c')"
    from quantity_le_ordered [OF c] h have "quantity c \<le> ordered (map wire cart) (p_id c)" by blast
    with h s show "p_stock (products db' ! k) < 0" by simp
  qed
  with run len show ?thesis by blast
qed

text \<open>
  Twenty terminals out of fifteen, sold for a total of 1 where the cart adds up to 11000:
  the sale is stored and the stock is -5.
\<close>

theorem create_sale_no_validation_witness:
  "list_all (\<lambda>c. p_id c \<in> set (map p_id (products shop))) greedy_cart \<and>
   p_stock (products shop ! 0) = 15 \<and>
   cart_total exact greedy_cart = 11000 \<and>
   create_sale 100 (Some 1) (map wire greedy_cart) shop =
     (Ok (SaleId 1),
      shop\<lparr>products := [(products shop ! 0)\<lparr>p_stock := -5\<rparr>, products shop ! 1],
           sales := [\<lparr>s_id = 1, s_total = 1, s_date = 100\<rparr>],
           sale_details :=
             [\<lparr>sd_id = 1, sd_sale_id = 1, sd_product_id = 5, sd_quantity = 20, sd_price = 550\<rparr>],
           seq_sales := 1, seq_sale_details := 1\<rparr>)"
  using create_sale_no_validation [of shop greedy_cart 100 1]
  by (simp add: run_sale shop_def greedy_cart_def cart_total_def exact_def wire_def)

subsection \<open>A sale without items\<close>

lemma find_fresh_append:
  "\<forall>x\<in>set xs. \<not> P x \<Longrightarrow> P y \<Longrightarrow> find P (xs @ [y]) = Some y"
  by (induction xs) auto

lemma no_lines_of_fresh_sale:
  assumes "list_all (\<lambda>sd. sd_sale_id sd \<in> set ids) sds"
  shows "filter (\<lambda>sd. sd_sale_id sd = next_rowid seq ids) sds = []"
proof -
  have "\<And>sd. sd \<in> set sds \<Longrightarrow> sd_sale_id sd \<noteq> next_rowid seq ids"
    using assms next_rowid_fresh [of seq ids] by (auto simp: list_all_iff)
  then show ?thesis by (simp add: filter_empty_conv)
qed

text \<open>
  Claim C8. \<^verbatim>\<open>POST /api/sales\<close> with an empty items list succeeds: the new sale row holds
  the total of the request as it came, no detail row is written and no product row
  changes; in a store that keeps its keys, get-sale-detail on the new id returns that
  sale with no line item.
\<close>

theorem empty_sale:
  "\<exists>saleId db'.
     create_sale now (Some t) [] db = (Ok (SaleId saleId), db') \<and>
     sales db' = sales db @ [\<lparr>s_id = saleId, s_total = t, s_date = now\<rparr>] \<and>
     sale_details db' = sale_details db \<and>
     products db' = products db \<and>
     (integrity db \<longrightarrow> get_sale saleId db' = Ok (SaleDetail \<lparr>s_id = saleId, s_total = t, s_date = now\<rparr> []))"
proof -
  let ?sid = "next_rowid (seq_sales db) (map s_id (sales db))"
  let ?row = "\<lparr>s_id = ?sid, s_total = t, s_date = now\<rparr>"
  let ?db' = "db\<lparr>sales := sales db @ [?row], seq_sales := ?sid\<rparr>"
  have run: "create_sale now (Some t) [] db = (Ok (SaleId ?sid), ?db')"
    by (simp add: create_sale_def transaction_def sale_body_def insertSale_def Let_def)
  have f: "find (\<lambda>s. s_id s = ?sid) (sales db @ [?row]) = Some ?row"
    using next_rowid_fresh [of "seq_sales db" "map s_id (sales db)"]
    by (intro find_fresh_append) force+
  have "get_sale ?sid ?db' = Ok (SaleDetail ?row [])" if "integrity db"
  proof -
    from that have "filter (\<lambda>sd. sd_sale_id sd = ?sid) (sale_details db) = []"
      by (intro no_lines_of_fresh_sale) (simp add: integrity_def)
    then show ?thesis using f by (simp add: get_sale_def sale_lines_def)
  qed
  with run show ?thesis by (intro exI [of _ ?sid] exI [of _ ?db']) simp
qed

theorem empty_sale_witness:
  "create_sale 100 (Some 42) [] shop =
     (Ok (SaleId 1), shop\<lparr>sales := [\<lparr>s_id = 1, s_total = 42, s_date = 100\<rparr>], seq_sales := 1\<rparr>) \<and>
   integrity shop \<and>
   get_sale 1 (shop\<lparr>sales := [\<lparr>s_id = 1, s_total = 42, s_date = 100\<rparr>], seq_sales := 1\<rparr>)
     = Ok (SaleDetail \<lparr>s_id = 1, s_total = 42, s_date = 100\<rparr> [])"
  using empty_sale [of 100 42 shop]
  by (simp add: run_sale shop_def integrity_def get_sale_def sale_lines_def)

subsection \<open>The inner join of get-sale-detail\<close>

lemma join_one:
  "distinct (map p_id ps) \<Longrightarrow> pid \<in> set (map p_id ps) \<Longrightarrow>
   \<exists>p. p \<in> set ps \<and> p_id p = pid \<and> filter (\<lambda>p. pid = p_id p) ps = [p]"
proof (induction ps)
  case Nil
  then show ?case by simp
next
  case (Cons a ps)
  show ?case
  proof (cases "p_id a = pid")
    case True
    with Cons.prems(1) have "filter (\<lambda>p. pid = p_id p) ps = []"
      by (force simp: filter_empty_conv)
    with True show ?thesis by auto
  next
    case False
    with Cons show ?thesis by auto
  qed
qed

lemma join_find:
  "distinct (map p_id ps) \<Longrightarrow>
   filter (\<lambda>p. pid = p_id p) ps = (case find (\<lambda>p. p_id p = pid) ps of None \<Rightarrow> [] | Some p \<Rightarrow> [p])"
proof (induction ps)
  case Nil
  then show ?case by simp
next
  case (Cons a ps)
  show ?case
  proof (cases "p_id a = pid")
    case True
    with Cons.prems have "filter (\<lambda>p. pid = p_id p) ps = []"
      by (force simp: filter_empty_conv)
    with True show ?thesis by auto
  next
    case False
    with Cons show ?thesis by auto
  qed
qed

lemma sale_lines_lookup:
  assumes "distinct (map p_id (products db))"
  shows "sale_lines saleId db =
     List.map_filter
       (\<lambda>sd. map_option (\<lambda>p. \<lparr>l_name = p_name p, l_quantity = sd_quantity sd, l_price = sd_price sd\<rparr>)
                         (find (\<lambda>p. p_id p = sd_product_id sd) (products db)))
       (filter (\<lambda>sd. sd_sale_id sd = saleId) (sale_details db))"
proof -
  have "concat (map (\<lambda>sd. map (\<lambda>p. \<lparr>l_name = p_name p, l_quantity = sd_quantity sd, l_price = sd_price sd\<rparr>)
                            (filter (\<lambda>p. sd_product_id sd = p_id p) (products db))) sds)
      = List.map_filter
       (\<lambda>sd. map_option (\<lambda>p. \<lparr>l_name = p_name p, l_quantity = sd_quantity sd, l_price = sd_price sd\<rparr>)
                         (find (\<lambda>p. p_id p = sd_product_id sd) (products db))) sds" for sds
    by (induction sds) (auto simp: join_find [OF assms] List.map_filter_simps split: option.splits)
  then show ?thesis by (simp add: sale_lines_def)
qed

subsection \<open>Create-sale, then get-sale-detail\<close>

lemma rows_record_wire:
  "rows_record news saleId (map wire cart) \<Longrightarrow>
     map sd_sale_id news = map (\<lambda>c. saleId) cart \<and> map sd_product_id news = map p_id cart \<and>
     map sd_quantity news = map quantity cart \<and> map sd_price news = map p_price cart"
proof (induction news arbitrary: cart)
  case Nil
  then show ?case by (simp add: rows_record_def)
next
  case (Cons sd news)
  from Cons.prems obtain c cs where c: "cart = c # cs"
    by (cases cart) (auto simp: rows_record_def)
  with Cons.prems have "rows_record news saleId (map wire cs)"
    by (simp add: rows_record_def)
  from Cons.IH [OF this] Cons.prems c show ?case
    by (simp add: rows_record_def)
qed

lemma lines_of_rows:
  assumes "distinct (map p_id ps)"
  shows "list_all (\<lambda>sd. sd_product_id sd \<in> set (map p_id ps)) sds \<Longrightarrow>
     map l_quantity (concat (map (\<lambda>sd. map (\<lambda>p. \<lparr>l_name = p_name p, l_quantity = sd_quantity sd, l_price = sd_price sd\<rparr>)
                            (filter (\<lambda>p. sd_product_id sd = p_id p) ps)) sds)) = map sd_quantity sds \<and>
     map l_price (concat (map (\<lambda>sd. map (\<lambda>p. \<lparr>l_name = p_name p, l_quantity = sd_quantity sd, l_price = sd_price sd\<rparr>)
                            (filter (\<lambda>p. sd_product_id sd = p_id p) ps)) sds)) = map sd_price sds"
proof (induction sds)
  case Nil
  show ?case by simp
next
  case (Cons sd sds)
  from Cons.prems have "sd_product_id sd \<in> set (map p_id ps)" by simp
  from join_one [OF assms this] obtain p where "filter (\<lambda>p. sd_product_id sd = p_id p) ps = [p]"
    by blast
  with Cons show ?case by simp
qed

lemma foldl_lines_cart:
  "map l_quantity ls = map quantity cart \<Longrightarrow> map l_price ls = map p_price cart \<Longrightarrow>
   foldl (\<lambda>sum l. num_plus A sum (num_times A (l_price l) (l_quantity l))) acc ls =
   foldl (\<lambda>sum item. num_plus A sum (num_times A (p_price item) (quantity item))) acc cart"
proof (induction ls arbitrary: cart acc)
  case Nil
  then show ?case by simp
next
  case (Cons l ls)
  then obtain c cs where "cart = c # cs" by (cases cart) auto
  with Cons show ?case by simp
qed

text \<open>
  Claim C2. In a store that keeps its keys, for every cart whose items all name stored
  products and every supplied total: create-sale succeeds, get-sale-detail on the
  returned id returns that sale with one line per cart item, in the cart's order, with
  the cart's quantities and unit prices; and the sum of price \<^verbatim>\<open>*\<close> quantity over those
  lines equals the stored total exactly when the supplied total is the cart's own sum
  (the client's \<^verbatim>\<open>reduce\<close>). The arithmetic \<open>A\<close> is arbitrary.
\<close>

theorem sale_round_trip:
  assumes "integrity db"
    and "list_all (\<lambda>c. p_id c \<in> set (map p_id (products db))) cart"
  shows "\<exists>saleId db' sale ls.
           create_sale now (Some t) (map wire cart) db = (Ok (SaleId saleId), db') \<and>
           get_sale saleId db' = Ok (SaleDetail sale ls) \<and>
           s_id sale = saleId \<and> s_total sale = t \<and>
           map l_quantity ls = map quantity cart \<and>
           map l_price ls = map p_price cart \<and>
           (lines_total A ls = s_total sale \<longleftrightarrow> cart_total A cart = t)"
proof -
  from create_sale_wire_succeeds [of db cart now t] assms(2) obtain saleId db' where
    run: "create_sale now (Some t) (map wire cart) db = (Ok (SaleId saleId), db')" by blast
  let ?row = "\<lparr>s_id = saleId, s_total = t, s_date = now\<rparr>"
  from create_sale_cases [of now "Some t" "map wire cart" db] run obtain news where
    sid: "saleId = next_rowid (seq_sales db) (map s_id (sales db))"
    and s: "sales db' = sales db @ [?row]"
    and d: "sale_details db' = sale_details db @ news"
    and n: "rows_record news saleId (map wire cart)"
    and p: "products db' = foldl decrement (products db) (map wire cart)"
    by auto
  have f: "find (\<lambda>s. s_id s = saleId) (sales db') = Some ?row"
    unfolding s sid using next_rowid_fresh [of "seq_sales db" "map s_id (sales db)"]
    by (intro find_fresh_append) force+
  from assms(1) have old: "filter (\<lambda>sd. sd_sale_id sd = saleId) (sale_details db) = []"
    unfolding sid by (intro no_lines_of_fresh_sale) (simp add: integrity_def)
  note w = rows_record_wire [OF n]
  have "\<forall>sd\<in>set news. sd_sale_id sd = saleId"
  proof
    fix sd assume "sd \<in> set news"
    then have "sd_sale_id sd \<in> set (map sd_sale_id news)" by simp
    with w show "sd_sale_id sd = saleId" by auto
  qed
  then have new: "filter (\<lambda>sd. sd_sale_id sd = saleId) news = news" by simp
  have ids: "map p_id (products db') = map p_id (products db)"
    by (simp add: p foldl_decrement comp_def)
  have dist: "distinct (map p_id (products db'))"
    using assms(1) by (simp add: ids integrity_def)
  have "set (map sd_product_id news) \<subseteq> set (map p_id (products db'))"
    using w assms(2) by (auto simp: ids list_all_iff)
  then have known: "list_all (\<lambda>sd. sd_product_id sd \<in> set (map p_id (products db'))) news"
    by (auto simp: list_all_iff)
  have sl: "sale_lines saleId db' =
      concat (map (\<lambda>sd. map (\<lambda>p. \<lparr>l_name = p_name p, l_quantity = sd_quantity sd, l_price = sd_price sd\<rparr>)
                            (filter (\<lambda>p. sd_product_id sd = p_id p) (products db'))) news)"
    by (simp add: sale_lines_def d old new)
  from lines_of_rows [OF dist known] w
  have q: "map l_quantity (sale_lines saleId db') = map quantity cart"
    and pr: "map l_price (sale_lines saleId db') = map p_price cart"
    by (simp_all add: sl)
  have g: "get_sale saleId db' = Ok (SaleDetail ?row (sale_lines saleId db'))"
    by (simp add: get_sale_def f)
  have "lines_total A (sale_lines saleId db') = cart_total A cart"
    unfolding lines_total_def cart_total_def by (rule foldl_lines_cart [OF q pr])
  with run g q pr show ?thesis by auto
qed

text \<open>
  Claim C10. For a stored sale, get-sale-detail answers with the sale and, for each of
  its detail rows in turn, the product now stored under the row's product id: when there
  is one, a line with that product's present name and the row's own quantity and price;
  when there is none, no line and no error. So the lines are as many as the detail rows
  of the sale whose product id is in \<^verbatim>\<open>products\<close>.
\<close>

theorem sale_detail_join:
  assumes "find (\<lambda>s. s_id s = saleId) (sales db) = Some sale"
    and "distinct (map p_id (products db))"
  shows "\<exists>ls. get_sale saleId db = Ok (SaleDetail sale ls) \<and>
           ls = List.map_filter
                  (\<lambda>sd. map_option
                           (\<lambda>p. \<lparr>l_name = p_name p, l_quantity = sd_quantity sd, l_price = sd_price sd\<rparr>)
                           (find (\<lambda>p. p_id p = sd_product_id sd) (products db)))
                  (filter (\<lambda>sd. sd_sale_id sd = saleId) (sale_details db)) \<and>
           length ls =
             length (filter (\<lambda>sd. sd_sale_id sd = saleId \<and>
                                   sd_product_id sd \<in> set (map p_id (products db)))
                            (sale_details db))"
proof -
  let ?look = "\<lambda>sd. map_option
                   (\<lambda>p. \<lparr>l_name = p_name p, l_quantity = sd_quantity sd, l_price = sd_price sd\<rparr>)
                   (find (\<lambda>p. p_id p = sd_product_id sd) (products db))"
  have g: "get_sale saleId db = Ok (SaleDetail sale (sale_lines saleId db))"
    using assms(1) by (simp add: get_sale_def)
  have l: "sale_lines saleId db =
      List.map_filter ?look (filter (\<lambda>sd. sd_sale_id sd = saleId) (sale_details db))"
    by (rule sale_lines_lookup [OF assms(2)])
  have none: "(find (\<lambda>p. p_id p = sd_product_id sd) (products db) = None) =
      (sd_product_id sd \<notin> set (map p_id (products db)))" for sd
    by (force simp: find_None_iff)
  have "length (List.map_filter ?look sds) =
        length (filter (\<lambda>sd. sd_product_id sd \<in> set (map p_id (products db))) sds)" for sds
  proof (induction sds)
    case Nil
    show ?case by (simp add: List.map_filter_simps)
  next
    case (Cons sd sds)
    show ?case
    proof (cases "find (\<lambda>p. p_id p = sd_product_id sd) (products db)")
      case None
      with none [of sd] Cons show ?thesis by (simp add: List.map_filter_simps)
    next
      case (Some p)
      with none [of sd] Cons show ?thesis by (simp add: List.map_filter_simps)
    qed
  qed
  from this [of "filter (\<lambda>sd. sd_sale_id sd = saleId) (sale_details db)"]
  have "length (sale_lines saleId db) =
      length (filter (\<lambda>sd. sd_sale_id sd = saleId \<and> sd_product_id sd \<in> set (map p_id (products db)))
                     (sale_details db))"
    by (simp add: l)
  with g l show ?thesis by simp
qed

subsection \<open>An unknown sale id\<close>

text \<open>
  Claim C6. When no stored sale has the id asked for, \<^verbatim>\<open>GET /api/sales/:id\<close> answers 404
  \<^verbatim>\<open>Sale not found\<close>; the store is unchanged and nothing is sent to the printer.
\<close>

theorem unknown_sale_not_found:
  assumes "saleId \<notin> set (map s_id (sales (store w)))"
  shows "handle A E (GetSale saleId) w = (NotFound ''Sale not found'', w) \<and>
         store (snd (handle A E (GetSale saleId) w)) = store w \<and>
         printed (snd (handle A E (GetSale saleId) w)) = printed w"
proof -
  from assms have "find (\<lambda>s. s_id s = saleId) (sales (store w)) = None"
    by (force simp: find_None_iff)
  then show ?thesis by (simp add: get_sale_def)
qed

subsection \<open>The printer\<close>

text \<open>
  Claim C7. When \<^verbatim>\<open>device.open\<close> reports an error, print-receipt and open-drawer answer
  with the connection failure and send nothing to the printer; the receipt (and the
  drawer pulse) is sent only when the open succeeded, and then in full.
\<close>

theorem printer_unreachable:
  "(e_open_error E \<longrightarrow>
      handle A E (PostPrint saleId total' items) w = (ServerError ''Printer connection failed'', w) \<and>
      handle A E PostDrawer w = (ServerError ''Printer connection failed'', w)) \<and>
   (\<not> e_open_error E \<longrightarrow>
      printed (snd (handle A E (PostPrint saleId total' items) w)) =
        printed w @ receipt A (e_locale_time E) saleId total' items \<and>
      printed (snd (handle A E PostDrawer w)) = printed w @ [Cashdraw 2, Close])"
  by (simp add: print_receipt_def open_drawer_def)

lemma digits_length: "0 < k \<Longrightarrow> n < 10 ^ k \<Longrightarrow> length (digits n) \<le> k"
proof (induction n arbitrary: k rule: digits.induct)
  case (1 n)
  show ?case
  proof (cases "n < 10")
    case True
    with "1.prems" show ?thesis by (simp add: digits.simps)
  next
    case False
    with "1.prems" obtain j where j: "k = Suc j" "0 < j"
      by (cases k; cases "k - 1") auto
    with "1.prems" have "n div 10 < 10 ^ j"
      by (simp add: less_mult_imp_div_less mult.commute)
    from "1.IH" [OF False j(2) this] False j show ?thesis
      by (subst digits.simps) simp
  qed
qed

lemma digits_chars: "set (digits n) \<subseteq> set ''0123456789''"
proof (induction n rule: digits.induct)
  case (1 n)
  have m: "''0123456789'' ! m \<in> set ''0123456789''" if "m < 10" for m
    using that by (intro nth_mem) simp
  show ?case
  proof (cases "n < 10")
    case True
    with m [of n] show ?thesis by (subst digits.simps) simp
  next
    case False
    with "1.IH" m [of "n mod 10"] show ?thesis by (subst digits.simps) simp
  qed
qed


lemma length_receipt_head: "length (receipt_head lt saleId) = 16"
  by (simp add: receipt_head_def)

lemma ticket_line: "receipt A lt saleId total' items ! 12 =
    Text (''Ticket: #'' @ padStart 6 CHR ''0'' (toString saleId))"
  by (simp add: receipt_def receipt_head_def nth_append)

lemma item_line: "i < length items \<Longrightarrow>
    receipt A lt saleId total' items ! (16 + i) = item_row A (items ! i)"
  by (simp add: receipt_def nth_append length_receipt_head)

lemma six_digits:
  assumes "0 \<le> saleId" and "saleId < 1000000"
  shows "length (padStart 6 CHR ''0'' (toString saleId)) = 6"
    and "set (padStart 6 CHR ''0'' (toString saleId)) \<subseteq> set ''0123456789''"
proof -
  from assms have n: "nat saleId < 10 ^ 6" by simp
  have t: "toString saleId = digits (nat saleId)" using assms(1) by (simp add: toString_def)
  from digits_length [OF _ n] have "length (digits (nat saleId)) \<le> 6" by simp
  then show "length (padStart 6 CHR ''0'' (toString saleId)) = 6"
    by (simp add: padStart_def t)
  from digits_chars [of "nat saleId"]
  show "set (padStart 6 CHR ''0'' (toString saleId)) \<subseteq> set ''0123456789''"
    by (auto simp: padStart_def t)
qed

text \<open>
  Claim C9. When the printer opens, what print-receipt sends has as its thirteenth
  directive the text \<^verbatim>\<open>Ticket: #\<close> followed by the sale id padded with zeros on the left to
  six characters (six decimal digits exactly for an id from 0 to 999999; a longer id is
  not cut), and the row of the \<open>i\<close>-th item, after the sixteen directives of the head, is
  a table row of the quantity, the first 15 characters of the name, and \<^verbatim>\<open>$\<close> with the
  price times the quantity in two decimals, aligned \<^verbatim>\<open>RIGHT\<close>.
\<close>

theorem receipt_rendering:
  assumes "\<not> e_open_error E"
  shows "\<exists>out.
           printed (snd (print_receipt A E saleId total' items w)) = printed w @ out \<and>
           out ! 12 = Text (''Ticket: #'' @ padStart 6 CHR ''0'' (toString saleId)) \<and>
           padStart 6 CHR ''0'' (toString saleId) =
             replicate (6 - length (toString saleId)) CHR ''0'' @ toString saleId \<and>
           6 \<le> length (padStart 6 CHR ''0'' (toString saleId)) \<and>
           (0 \<le> saleId \<and> saleId < 1000000 \<longrightarrow>
              length (padStart 6 CHR ''0'' (toString saleId)) = 6 \<and>
              set (padStart 6 CHR ''0'' (toString saleId)) \<subseteq> set ''0123456789'') \<and>
           (\<forall>i < length items.
              out ! (16 + i) =
                TableCustom
                  [\<lparr>c_text = toString (l_quantity (items ! i)), c_align = ''LEFT'', c_width = 0.15\<rparr>,
                   \<lparr>c_text = take 15 (l_name (items ! i)), c_align = ''LEFT'', c_width = 0.55\<rparr>,
                   \<lparr>c_text = CHR ''$'' #
                      toFixed2 A (num_times A (l_price (items ! i)) (l_quantity (items ! i))),
                    c_align = ''RIGHT'', c_width = 0.30\<rparr>])"
proof -
  let ?out = "receipt A (e_locale_time E) saleId total' items"
  have "printed (snd (print_receipt A E saleId total' items w)) = printed w @ ?out"
    using assms by (simp add: print_receipt_def)
  moreover have "6 \<le> length (padStart 6 CHR ''0'' (toString saleId))"
    by (simp add: padStart_def)
  moreover have "padStart 6 CHR ''0'' (toString saleId) =
             replicate (6 - length (toString saleId)) CHR ''0'' @ toString saleId"
    by (simp add: padStart_def)
  moreover have "\<forall>i < length items.
              ?out ! (16 + i) =
                TableCustom
                  [\<lparr>c_text = toString (l_quantity (items ! i)), c_align = ''LEFT'', c_width = 0.15\<rparr>,
                   \<lparr>c_text = take 15 (l_name (items ! i)), c_align = ''LEFT'', c_width = 0.55\<rparr>,
                   \<lparr>c_text = CHR ''$'' #
                      toFixed2 A (num_times A (l_price (items ! i)) (l_quantity (items ! i))),
                    c_align = ''RIGHT'', c_width = 0.30\<rparr>]"
    by (simp add: item_line item_row_def substring0_def)
  ultimately show ?thesis
    using ticket_line [of A "e_locale_time E" saleId total' items] six_digits [of saleId]
    by blast
qed

subsection \<open>The order of list-sales\<close>

lemma insort_key_map:
  "insort_key f (g x) (map g xs) = map g (insort_key (\<lambda>y. f (g y)) x xs)"
  by (induction xs) simp_all

lemma sort_key_map: "sort_key f (map g xs) = map g (sort_key (\<lambda>y. f (g y)) xs)"
  by (induction xs) (simp_all add: insort_key_map)

lemma sale_group_date [simp]: "ss_date (sale_group db s) = s_date s"
  by (simp add: sale_group_def)

lemma list_sales_sorted_sales:
  "list_sales db = Ok (SaleList (map (sale_group db) (sort_key (\<lambda>s. - int (s_date s)) (sales db))))"
  by (simp add: list_sales_def sale_groups_def order_by_date_desc_def sort_key_map)

lemma sort_key_date_desc:
  "sorted_wrt (\<lambda>a b. s_date b \<le> s_date a) (sort_key (\<lambda>s. - int (s_date s)) xs)"
  using sorted_sort_key [of "\<lambda>s. - int (s_date s)" xs] by (simp add: sorted_wrt_map)

lemma sort_key_date_ties:
  "filter (\<lambda>s. s_date s = d) (sort_key (\<lambda>s. - int (s_date s)) xs) = filter (\<lambda>s. s_date s = d) xs"
  using sort_key_stable [of "\<lambda>s. - int (s_date s)" "- int d" xs] by simp

text \<open>A list in descending date order whose rows of each date ascend in id is strictly
  ordered by date descending, then id ascending.\<close>

lemma date_then_id:
  "sorted_wrt (\<lambda>a b. s_date b \<le> s_date a) ss \<Longrightarrow>
   (\<And>d. sorted_wrt (\<lambda>a b. s_id a < s_id b) (filter (\<lambda>s. s_date s = d) ss)) \<Longrightarrow>
   sorted_wrt (\<lambda>a b. s_date b < s_date a \<or> (s_date b = s_date a \<and> s_id a < s_id b)) ss"
proof (induction ss)
  case Nil
  show ?case by simp
next
  case (Cons a ss)
  have tail: "sorted_wrt (\<lambda>a b. s_id a < s_id b) (filter (\<lambda>s. s_date s = d) ss)" for d
    using Cons.prems(2) [of d] by (cases "s_date a = d") simp_all
  have "s_date b < s_date a \<or> (s_date b = s_date a \<and> s_id a < s_id b)" if b: "b \<in> set ss" for b
  proof (cases "s_date b = s_date a")
    case True
    with Cons.prems(2) [of "s_date a"] b show ?thesis by simp
  next
    case False
    with Cons.prems(1) b show ?thesis by auto
  qed
  moreover have "sorted_wrt (\<lambda>a b. s_date b < s_date a \<or> (s_date b = s_date a \<and> s_id a < s_id b)) ss"
    using Cons.prems(1) tail by (intro Cons.IH) simp_all
  ultimately show ?case by simp
qed

text \<open>Every create-sale keeps the sales table in ascending rowid order.\<close>

lemma create_sale_keeps_rowid_order:
  assumes "rowid_order db" and "create_sale now total' items db = (res, db')"
  shows "rowid_order db'"
proof -
  from create_sale_cases [of now total' items db] assms(2)
  consider (ok) saleId t where
      "saleId = next_rowid (seq_sales db) (map s_id (sales db))"
      "sales db' = sales db @ [\<lparr>s_id = saleId, s_total = t, s_date = now\<rparr>]"
    | (failed) "db' = db"
    by auto
  then show ?thesis
  proof cases
    case ok
    with assms(1) next_rowid_gt [of _ "map s_id (sales db)" "seq_sales db"] show ?thesis
      by (auto simp: rowid_order_def sorted_wrt_append)
  next
    case failed
    with assms(1) show ?thesis by simp
  qed
qed

text \<open>
  Claim C4. For every store state, list-sales returns the sales table rearranged (every
  sale once, each with the count of its detail rows) so that no sale comes before a sale
  of a later timestamp, and the sales of any one timestamp stand in the order they have
  in the table, which is the order of insertion. With the ids of the table ascending, as
  autoincrement makes them, the list is therefore strictly ordered by timestamp
  descending and, within a timestamp, by id ascending.
\<close>

theorem list_sales_order:
  "\<exists>ss. list_sales db = Ok (SaleList (map (sale_group db) ss)) \<and>
        mset ss = mset (sales db) \<and>
        sorted_wrt (\<lambda>a b. s_date b \<le> s_date a) ss \<and>
        (\<forall>d. filter (\<lambda>s. s_date s = d) ss = filter (\<lambda>s. s_date s = d) (sales db)) \<and>
        (rowid_order db \<longrightarrow>
           sorted_wrt (\<lambda>a b. s_date b < s_date a \<or> (s_date b = s_date a \<and> s_id a < s_id b)) ss)"
proof -
  let ?ss = "sort_key (\<lambda>s. - int (s_date s)) (sales db)"
  have ties: "filter (\<lambda>s. s_date s = d) ?ss = filter (\<lambda>s. s_date s = d) (sales db)" for d
    by (rule sort_key_date_ties)
  have "sorted_wrt (\<lambda>a b. s_date b < s_date a \<or> (s_date b = s_date a \<and> s_id a < s_id b)) ?ss"
    if asc: "rowid_order db"
  proof (rule date_then_id [OF sort_key_date_desc])
    fix d
    from asc have "sorted_wrt (\<lambda>a b. s_id a < s_id b) (sales db)"
      by (simp add: rowid_order_def sorted_wrt_map)
    then have "sorted_wrt (\<lambda>a b. s_id a < s_id b) (filter (\<lambda>s. s_date s = d) (sales db))"
      by (rule sorted_wrt_filter)
    then show "sorted_wrt (\<lambda>a b. s_id a < s_id b) (filter (\<lambda>s. s_date s = d) ?ss)"
      by (simp add: ties)
  qed
  with list_sales_sorted_sales [of db] sort_key_date_desc [of "sales db"] ties show ?thesis
    by (intro exI [of _ ?ss]) simp
qed

subsection \<open>Worked instances\<close>

text \<open>
  Two terminals and three rolls sold for 1107.50 and read back: the lines carry the
  cart's quantities and prices, and they add up to the stored total.
\<close>

theorem sale_round_trip_witness:
  "integrity shop \<and>
   list_all (\<lambda>c. p_id c \<in> set (map p_id (products shop))) mixed_cart \<and>
   create_sale 100 (Some 1107.5) (map wire mixed_cart) shop = (Ok (SaleId 1), shop_after_mixed) \<and>
   get_sale 1 shop_after_mixed = Ok (SaleDetail \<lparr>s_id = 1, s_total = 1107.5, s_date = 100\<rparr> mixed_lines) \<and>
   cart_total exact mixed_cart = 1107.5 \<and> lines_total exact mixed_lines = 1107.5"
  using sale_round_trip [of shop mixed_cart 100 "1107.5" exact]
  by (simp add: run_sale shop_def mixed_cart_def shop_after_mixed_def wire_def integrity_def
      get_sale_def sale_lines_def mixed_lines_def cart_total_def lines_total_def exact_def)

text \<open>
  Where foreign keys are not enforced, a sale naming an unknown product 9 is stored with
  two detail rows, and get-sale-detail returns one line: the row of product 9 is left out.
\<close>

theorem sale_detail_join_witness:
  "create_sale 100 (Some 10)
     [\<lparr>i_id = Some 6, i_quantity = Some 3, i_price = Some 2.5\<rparr>,
      \<lparr>i_id = Some 9, i_quantity = Some 1, i_price = Some 2.5\<rparr>] (shop\<lparr>foreign_keys := False\<rparr>)
     = (Ok (SaleId 1), ledger) \<and>
   find (\<lambda>s. s_id s = 1) (sales ledger) = Some \<lparr>s_id = 1, s_total = 10, s_date = 100\<rparr> \<and>
   distinct (map p_id (products ledger)) \<and>
   length (filter (\<lambda>sd. sd_sale_id sd = 1) (sale_details ledger)) = 2 \<and>
   get_sale 1 ledger =
     Ok (SaleDetail \<lparr>s_id = 1, s_total = 10, s_date = 100\<rparr>
           [\<lparr>l_name = ''Rollo Papel Termico 80mm'', l_quantity = 3, l_price = 2.5\<rparr>])"
  using sale_detail_join [of 1 ledger "\<lparr>s_id = 1, s_total = 10, s_date = 100\<rparr>"]
  by (simp add: run_sale shop_def ledger_def get_sale_def sale_lines_def)

text \<open>No sale 7 in a shop that has sold nothing.\<close>

theorem unknown_sale_not_found_witness:
  "7 \<notin> set (map s_id (sales (store at_opening))) \<and>
   handle exact till (GetSale 7) at_opening = (NotFound ''Sale not found'', at_opening)"
  using unknown_sale_not_found [of 7 at_opening exact till]
  by (simp add: at_opening_def shop_def)

text \<open>The printer unreachable, and the drawer pulse once it answers.\<close>

theorem printer_unreachable_witness:
  "e_open_error till_offline \<and>
   handle exact till_offline (PostPrint 1 1107.5 mixed_lines) at_opening
     = (ServerError ''Printer connection failed'', at_opening) \<and>
   handle exact till_offline PostDrawer at_opening = (ServerError ''Printer connection failed'', at_opening) \<and>
   \<not> e_open_error till \<and>
   printed (snd (handle exact till PostDrawer at_opening)) = [Cashdraw 2, Close]"
  using printer_unreachable [of till_offline exact 1 "1107.5" mixed_lines at_opening]
    printer_unreachable [of till exact 1 "1107.5" mixed_lines at_opening]
  by (simp add: till_offline_def till_def at_opening_def)

lemma shown: "toString 42 = ''42''" "toString 2 = ''2''" "toString 3 = ''3''"
  "fixed2 1100 = ''1100.00''" "fixed2 (15 / 2) = ''7.50''"
  by (simp_all add: fixed2_def Let_def toString_def digits.simps padStart_def)

lemma four_zeros: "replicate 4 CHR ''0'' = ''0000''"
  by (simp add: numeral_eq_Suc)

text \<open>Ticket 42 for the two terminals and three rolls.\<close>

theorem receipt_rendering_witness:
  "\<not> e_open_error till \<and>
   printed (snd (print_receipt exact till 42 1107.5 mixed_lines at_opening)) ! 12 =
     Text ''Ticket: #000042'' \<and>
   printed (snd (print_receipt exact till 42 1107.5 mixed_lines at_opening)) ! 16 =
     TableCustom [\<lparr>c_text = ''2'', c_align = ''LEFT'', c_width = 0.15\<rparr>,
                  \<lparr>c_text = ''Terminal POS Al'', c_align = ''LEFT'', c_width = 0.55\<rparr>,
                  \<lparr>c_text = ''$1100.00'', c_align = ''RIGHT'', c_width = 0.30\<rparr>] \<and>
   printed (snd (print_receipt exact till 42 1107.5 mixed_lines at_opening)) ! 17 =
     TableCustom [\<lparr>c_text = ''3'', c_align = ''LEFT'', c_width = 0.15\<rparr>,
                  \<lparr>c_text = ''Rollo Papel Ter'', c_align = ''LEFT'', c_width = 0.55\<rparr>,
                  \<lparr>c_text = ''$7.50'', c_align = ''RIGHT'', c_width = 0.30\<rparr>]"
proof -
  have up: "\<not> e_open_error till" by (simp add: till_def)
  from receipt_rendering [OF up, of exact 42 "1107.5" mixed_lines at_opening]
  obtain out where
    o: "printed (snd (print_receipt exact till 42 1107.5 mixed_lines at_opening)) = printed at_opening @ out"
    and t: "out ! 12 = Text (''Ticket: #'' @ padStart 6 CHR ''0'' (toString 42))"
    and r: "\<forall>i < length mixed_lines.
              out ! (16 + i) =
                TableCustom
                  [\<lparr>c_text = toString (l_quantity (mixed_lines ! i)), c_align = ''LEFT'', c_width = 0.15\<rparr>,
                   \<lparr>c_text = take 15 (l_name (mixed_lines ! i)), c_align = ''LEFT'', c_width = 0.55\<rparr>,
                   \<lparr>c_text = CHR ''$'' #
                      toFixed2 exact (num_times exact (l_price (mixed_lines ! i)) (l_quantity (mixed_lines ! i))),
                    c_align = ''RIGHT'', c_width = 0.30\<rparr>]"
    by blast
  have e: "printed (snd (print_receipt exact till 42 1107.5 mixed_lines at_opening)) = out"
    using o by (simp add: at_opening_def)
  have "out ! 12 = Text ''Ticket: #000042''"
    using t by (simp add: shown padStart_def four_zeros)
  moreover have "out ! 16 =
     TableCustom [\<lparr>c_text = ''2'', c_align = ''LEFT'', c_width = 0.15\<rparr>,
                  \<lparr>c_text = ''Terminal POS Al'', c_align = ''LEFT'', c_width = 0.55\<rparr>,
                  \<lparr>c_text = ''$1100.00'', c_align = ''RIGHT'', c_width = 0.30\<rparr>]"
    using r [rule_format, of 0] by (simp add: mixed_lines_def exact_def shown)
  moreover have "out ! 17 =
     TableCustom [\<lparr>c_text = ''3'', c_align = ''LEFT'', c_width = 0.15\<rparr>,
                  \<lparr>c_text = ''Rollo Papel Ter'', c_align = ''LEFT'', c_width = 0.55\<rparr>,
                  \<lparr>c_text = ''$7.50'', c_align = ''RIGHT'', c_width = 0.30\<rparr>]"
    using r [rule_format, of 1] by (simp add: mixed_lines_def exact_def shown)
  ultimately show ?thesis using up e by simp
qed

text \<open>
  Two sales in second 100 and a later one in second 200: the later sale comes first, then
  sales 1 and 2 in the order they were made.
\<close>

theorem list_sales_order_witness:
  "rowid_order busy_second \<and>
   map s_id (sales busy_second) = [1, 2, 3] \<and>
   map s_date (sales busy_second) = [100, 100, 200] \<and>
   list_sales busy_second =
     Ok (SaleList [\<lparr>ss_id = 3, ss_total = 30, ss_date = 200, ss_itemCount = 0\<rparr>,
                   \<lparr>ss_id = 1, ss_total = 10, ss_date = 100, ss_itemCount = 0\<rparr>,
                   \<lparr>ss_id = 2, ss_total = 20, ss_date = 100, ss_itemCount = 0\<rparr>])"
  using list_sales_order [of busy_second]
  by (simp add: list_sales_def sale_groups_def sale_group_def order_by_date_desc_def
      rowid_order_def busy_second_def shop_def)

end
